theory Spec2Isabelle
  imports Main
begin

section \<open>Paginated mail listing: the service, its request validation and the endpoint\<close>

text \<open>
  The development follows \<^verbatim>\<open>src/mails/mails.service.ts\<close> (method
  \<^verbatim>\<open>MailsService.getMailPaginated\<close>), \<^verbatim>\<open>src/mails/dto/pagination-params.dto.ts\<close>
  and \<^verbatim>\<open>src/mails/mails.controller.ts\<close>.

  The service file holds two revisions of \<^verbatim>\<open>getMailPaginated\<close>. The first one parses both
  parameters unconditionally and slices with whatever comes out; the second one parses a
  parameter only when it is present, checks the parsed value and answers a bad request
  otherwise. The second revision is the one the end-to-end tests exercise
  (\<^verbatim>\<open>/mails?take=0\<close> answers 400 there), and it is embedded as \<open>getMailPaginated\<close>.
  The first revision is kept as \<open>getMailPaginated_unchecked\<close>, because the unit tests of
  \<^verbatim>\<open>mails.service.spec.ts\<close> still describe it.
\<close>

subsection \<open>Numbers\<close>

text \<open>
  A JavaScript number as far as this code can see one: an integer or \<^verbatim>\<open>NaN\<close>.
  \<^verbatim>\<open>parseInt\<close> yields integral values only, the two parameters are never divided, and
  the source array is far shorter than \<open>2^53\<close>, so the rounding of very long digit strings
  to the nearest double (or to \<^verbatim>\<open>Infinity\<close>) cannot change a comparison with \<open>0\<close> nor a
  clamped slice bound; the integer is kept exact here.
\<close>

datatype number = NaN | Num int

fun isNaN :: "number \<Rightarrow> bool" where
  "isNaN NaN = True"
| "isNaN (Num i) = False"

text \<open>\<^verbatim>\<open>a <= b\<close>, \<^verbatim>\<open>a < b\<close> and \<^verbatim>\<open>a + b\<close>: a comparison with \<^verbatim>\<open>NaN\<close> is false, a sum with
  \<^verbatim>\<open>NaN\<close> is \<^verbatim>\<open>NaN\<close>.\<close>

fun num_le :: "number \<Rightarrow> number \<Rightarrow> bool" where
  "num_le (Num a) (Num b) = (a \<le> b)"
| "num_le a b = False"

fun num_lt :: "number \<Rightarrow> number \<Rightarrow> bool" where
  "num_lt (Num a) (Num b) = (a < b)"
| "num_lt a b = False"

fun num_add :: "number \<Rightarrow> number \<Rightarrow> number" where
  "num_add (Num a) (Num b) = Num (a + b)"
| "num_add a b = NaN"

subsection \<open>\<^verbatim>\<open>parseInt(string, 10)\<close>\<close>

text \<open>
  Strings are lists of code units below 256. Both call sites pass the radix 10, so no
  \<^verbatim>\<open>0x\<close> prefix is recognised. The steps are those of the language definition: drop
  leading white space, read one optional sign, take the longest prefix of decimal digits;
  no digit gives \<^verbatim>\<open>NaN\<close>, otherwise the signed value of the digits.
\<close>

definition isWhiteSpace :: "char \<Rightarrow> bool" where
  "isWhiteSpace c = (c \<in> set [CHR 0x09, CHR 0x0A, CHR 0x0B, CHR 0x0C, CHR 0x0D, CHR 0x20, CHR 0xA0])"

definition isDigit :: "char \<Rightarrow> bool" where
  "isDigit c = (c \<in> set ''0123456789'')"

definition digitValue :: "char \<Rightarrow> int" where
  "digitValue c = of_char c - 48"

definition digitsValue :: "string \<Rightarrow> int" where
  "digitsValue Z = foldl (\<lambda>acc c. 10 * acc + digitValue c) 0 Z"

definition parseInt :: "string \<Rightarrow> number" where
  "parseInt string =
     (let S = dropWhile isWhiteSpace string;
          sign = (if S \<noteq> [] \<and> hd S = CHR ''-'' then - 1 else 1);
          S' = (if S \<noteq> [] \<and> (hd S = CHR ''+'' \<or> hd S = CHR ''-'') then tl S else S);
          Z = takeWhile isDigit S'
      in if Z = [] then NaN else Num (sign * digitsValue Z))"

subsection \<open>\<^verbatim>\<open>Array.prototype.slice(start, end)\<close>\<close>

text \<open>\<^verbatim>\<open>NaN\<close> counts as 0; a negative bound counts from the end; both bounds are clamped to
  the array; an empty or inverted range gives the empty array. The array is not changed.\<close>

fun toIntegerOrInfinity :: "number \<Rightarrow> int" where
  "toIntegerOrInfinity NaN = 0"
| "toIntegerOrInfinity (Num i) = i"

definition slice :: "'a list \<Rightarrow> number \<Rightarrow> number \<Rightarrow> 'a list" where
  "slice xs start endIdx =
     (let len = int (length xs);
          relativeStart = toIntegerOrInfinity start;
          k = (if relativeStart < 0 then max (len + relativeStart) 0 else min relativeStart len);
          relativeEnd = toIntegerOrInfinity endIdx;
          final = (if relativeEnd < 0 then max (len + relativeEnd) 0 else min relativeEnd len)
      in take (nat (final - k)) (drop (nat k) xs))"

subsection \<open>Data model\<close>

text \<open>Modelled from the spec: the sender interface \<^verbatim>\<open>IUser\<close> of
  \<^verbatim>\<open>interfaces/user.interface.ts\<close>, a file that is not among the sources. The data model
  gives it an optional integer id, a name, an email and an optional avatar with a source
  address; the records of \<^verbatim>\<open>mails.ts\<close> and of the fixtures have these fields.\<close>

record Avatar =
  src :: string

record IUser =
  user_id :: "int option"
  user_name :: string
  email :: string
  avatar :: "Avatar option"

text \<open>\<^verbatim>\<open>IMail\<close> is the interface of \<^verbatim>\<open>interfaces/mail.interface.ts\<close>. An optional field is
  an \<open>option\<close>.\<close>

record IMail =
  mail_id :: "int option"
  unread :: "bool option"
  from_user :: IUser
  subject :: string
  body :: string
  date :: string

text \<open>\<^verbatim>\<open>PaginationParamsDto\<close>: two optional strings.\<close>

record PaginationParamsDto =
  take_q :: "string option"
  skip_q :: "string option"

text \<open>Modelled from the spec: the response class \<^verbatim>\<open>GetMailsPaginatedResponseDto\<close> of
  \<^verbatim>\<open>dto/get-mails-response.dto.ts\<close>, a file that is not among the sources. The data model
  gives the response the ordered page and the size of the whole collection; these are the
  two properties the service passes to \<^verbatim>\<open>plainToInstance\<close> and the tests read back.\<close>

record GetMailsPaginatedResponseDto =
  mails :: "IMail list"
  totalCount :: number

text \<open>The body of an error answer carries \<^verbatim>\<open>message: string | string[]\<close>.\<close>

datatype message = Single string | Many "string list"

datatype HttpException =
    BadRequestException message
  | InternalServerErrorException message

text \<open>
  The errors thrown inside the first \<^verbatim>\<open>try\<close> block, one constructor for each
  \<^verbatim>\<open>throw new Error(...)\<close>, with the value interpolated into its message:
  \<^verbatim>\<open>Invalid take parameter: ${query.take}\<close>,
  \<^verbatim>\<open>Take must be a positive number (minimum 1): ${take}\<close>,
  \<^verbatim>\<open>Invalid skip parameter: ${query.skip}\<close>,
  \<^verbatim>\<open>Skip must be a positive number or zero: ${skip}\<close>.
\<close>

datatype ParseError =
    InvalidTakeParameter string
  | TakeNotPositive number
  | InvalidSkipParameter string
  | SkipNegative number

text \<open>What \<^verbatim>\<open>this.logger.error\<close> is called with; the only handler that can run is the first.\<close>

datatype log_entry =
    ErrorParsingTakeSkip ParseError
  | ErrorGettingMails
  | ErrorBuildingResponse

text \<open>What a call can read or change: the module-level array \<^verbatim>\<open>mails\<close> and the log.\<close>

record world =
  mails_src :: "IMail list"
  logger :: "log_entry list"

subsection \<open>The service\<close>

text \<open>The first \<^verbatim>\<open>try\<close> block of the checked revision: \<^verbatim>\<open>take\<close> first, then \<^verbatim>\<open>skip\<close>; the
  first \<^verbatim>\<open>throw\<close> leaves the block.\<close>

definition parseTake :: "string option \<Rightarrow> ParseError + number" where
  "parseTake qt =
     (case qt of
        None \<Rightarrow> Inr (Num 10)
      | Some s \<Rightarrow>
          (let takeN = parseInt s
           in if isNaN takeN then Inl (InvalidTakeParameter s)
              else if num_le takeN (Num 0) then Inl (TakeNotPositive takeN)
              else Inr takeN))"

definition parseSkip :: "string option \<Rightarrow> ParseError + number" where
  "parseSkip qs =
     (case qs of
        None \<Rightarrow> Inr (Num 0)
      | Some s \<Rightarrow>
          (let skipN = parseInt s
           in if isNaN skipN then Inl (InvalidSkipParameter s)
              else if num_lt skipN (Num 0) then Inl (SkipNegative skipN)
              else Inr skipN))"

definition parseTakeSkip :: "PaginationParamsDto \<Rightarrow> ParseError + (number \<times> number)" where
  "parseTakeSkip query =
     (case parseTake (take_q query) of
        Inl error \<Rightarrow> Inl error
      | Inr takeN \<Rightarrow>
          (case parseSkip (skip_q query) of
             Inl error \<Rightarrow> Inl error
           | Inr skipN \<Rightarrow> Inr (takeN, skipN)))"

text \<open>\<^verbatim>\<open>plainToInstance\<close> builds the response object from the two fields it is given.\<close>

definition plainToInstance :: "GetMailsPaginatedResponseDto \<Rightarrow> GetMailsPaginatedResponseDto" where
  "plainToInstance plain = plain"

text \<open>
  \<^verbatim>\<open>getMailPaginated\<close>, checked revision. The \<^verbatim>\<open>catch\<close> of the first block logs the error
  and throws the same bad request whatever was thrown inside. The second and third block
  hold \<^verbatim>\<open>slice\<close>, \<^verbatim>\<open>length\<close> and \<^verbatim>\<open>plainToInstance\<close>, none of which throws on an array of
  records, so their handlers (both an \<^verbatim>\<open>InternalServerErrorException\<close>) have no branch
  here.
\<close>

definition getMailPaginated ::
  "PaginationParamsDto \<Rightarrow> world \<Rightarrow> (HttpException + GetMailsPaginatedResponseDto) \<times> world" where
  "getMailPaginated query w =
     (case parseTakeSkip query of
        Inl error \<Rightarrow>
          (Inl (BadRequestException (Single ''Invalid take, skip'')),
           w\<lparr>logger := logger w @ [ErrorParsingTakeSkip error]\<rparr>)
      | Inr (takeN, skipN) \<Rightarrow>
          (let requestedMails = slice (mails_src w) skipN (num_add skipN takeN);
               total = Num (int (length (mails_src w)))
           in (Inr (plainToInstance \<lparr>mails = requestedMails, totalCount = total\<rparr>), w)))"

text \<open>The first revision: \<^verbatim>\<open>parseInt\<close> is applied to both fields, present or not (an absent
  field is \<^verbatim>\<open>undefined\<close>, which \<^verbatim>\<open>parseInt\<close> reads as the string \<^verbatim>\<open>undefined\<close>), and nothing
  is checked.\<close>

definition toString :: "string option \<Rightarrow> string" where
  "toString v = (case v of None \<Rightarrow> ''undefined'' | Some s \<Rightarrow> s)"

definition getMailPaginated_unchecked ::
  "PaginationParamsDto \<Rightarrow> world \<Rightarrow> (HttpException + GetMailsPaginatedResponseDto) \<times> world" where
  "getMailPaginated_unchecked query w =
     (let takeN = parseInt (toString (take_q query));
          skipN = parseInt (toString (skip_q query));
          requestedMails = slice (mails_src w) skipN (num_add skipN takeN);
          total = Num (int (length (mails_src w)))
      in (Inr (plainToInstance \<lparr>mails = requestedMails, totalCount = total\<rparr>), w))"

subsection \<open>Request validation and the endpoint\<close>

text \<open>
  \<^verbatim>\<open>@IsNumberString({}, ...)\<close> of class-validator holds of a string that validator.js'
  \<^verbatim>\<open>isNumeric\<close> accepts, which without \<^verbatim>\<open>no_symbols\<close> is a match of
  \<^verbatim>\<open>^[+-]?([0-9]*[.])?[0-9]+$\<close>: an optional sign, then either digits to the end, or
  possibly no digit, a dot, and digits to the end. \<^verbatim>\<open>@IsOptional()\<close> skips the check of an
  absent field.
\<close>

definition isNumeric :: "string \<Rightarrow> bool" where
  "isNumeric str =
     (let r = (if str \<noteq> [] \<and> (hd str = CHR ''+'' \<or> hd str = CHR ''-'') then tl str else str);
          intPart = takeWhile isDigit r;
          rest = dropWhile isDigit r
      in case rest of
           [] \<Rightarrow> intPart \<noteq> []
         | c # frac \<Rightarrow> c = CHR ''.'' \<and> frac \<noteq> [] \<and> list_all isDigit frac)"

definition isNumberString :: "string \<Rightarrow> bool" where
  "isNumberString v = isNumeric v"

definition validateField :: "string \<Rightarrow> string option \<Rightarrow> string list" where
  "validateField msg v =
     (case v of None \<Rightarrow> [] | Some s \<Rightarrow> if isNumberString s then [] else [msg])"

definition validate :: "PaginationParamsDto \<Rightarrow> string list" where
  "validate query =
     validateField ''take must be a valid number'' (take_q query) @
     validateField ''skip must be a valid number'' (skip_q query)"

text \<open>The global \<^verbatim>\<open>ValidationPipe\<close> answers a bad request carrying the list of the messages
  of the failed fields, and lets the query through when there is none.\<close>

definition validationPipe :: "PaginationParamsDto \<Rightarrow> HttpException + PaginationParamsDto" where
  "validationPipe query =
     (case validate query of
        [] \<Rightarrow> Inr query
      | e # es \<Rightarrow> Inl (BadRequestException (Many (e # es))))"

text \<open>\<^verbatim>\<open>MailsController.getMails\<close> hands the query to the service.\<close>

definition getMails ::
  "PaginationParamsDto \<Rightarrow> world \<Rightarrow> (HttpException + GetMailsPaginatedResponseDto) \<times> world" where
  "getMails query w = getMailPaginated query w"

text \<open>\<^verbatim>\<open>GET /mails\<close>: the pipe, then the controller.\<close>

definition GET_mails ::
  "PaginationParamsDto \<Rightarrow> world \<Rightarrow> (HttpException + GetMailsPaginatedResponseDto) \<times> world" where
  "GET_mails query w =
     (case validationPipe query of
        Inl e \<Rightarrow> (Inl e, w)
      | Inr q \<Rightarrow> getMails q w)"

subsection \<open>The three records the unit tests mock the source with\<close>

definition mockMails :: "IMail list" where
  "mockMails =
     [\<lparr>mail_id = Some 1, unread = None,
        from_user = \<lparr>user_id = None, user_name = ''Test User 1'', email = ''test1@example.com'',
                     avatar = Some \<lparr>src = ''https://example.com/avatar1.jpg''\<rparr>\<rparr>,
        subject = ''Test Subject 1'', body = ''Test Body 1'', date = ''2024-01-01T00:00:00.000Z''\<rparr>,
      \<lparr>mail_id = Some 2, unread = Some True,
        from_user = \<lparr>user_id = None, user_name = ''Test User 2'', email = ''test2@example.com'',
                     avatar = Some \<lparr>src = ''https://example.com/avatar2.jpg''\<rparr>\<rparr>,
        subject = ''Test Subject 2'', body = ''Test Body 2'', date = ''2024-01-02T00:00:00.000Z''\<rparr>,
      \<lparr>mail_id = Some 3, unread = None,
        from_user = \<lparr>user_id = None, user_name = ''Test User 3'', email = ''test3@example.com'',
                     avatar = None\<rparr>,
        subject = ''Test Subject 3'', body = ''Test Body 3'', date = ''2024-01-03T00:00:00.000Z''\<rparr>]"

definition mockWorld :: world where
  "mockWorld = \<lparr>mails_src = mockMails, logger = []\<rparr>"

section \<open>Facts about the embedding\<close>

subsection \<open>Slicing a window that starts at a non-negative offset\<close>

lemma take_clamp: "take (min n (length xs - m)) (drop m xs) = take n (drop m xs)"
  by (simp add: min_def)

lemma slice_window:
  assumes "0 \<le> s" and "0 \<le> t"
  shows "slice xs (Num s) (num_add (Num s) (Num t)) = take (nat t) (drop (nat s) xs)"
proof (cases "s \<le> int (length xs)")
  case True
  have "nat (min (s + t) (int (length xs)) - s) = min (nat t) (length (drop (nat s) xs))"
    using assms True by (simp add: min_def) linarith
  then show ?thesis
    using assms True by (simp add: slice_def Let_def take_clamp min_absorb1)
next
  case False
  then show ?thesis
    using assms by (simp add: slice_def Let_def)
qed

text \<open>A bound at or past the end of the array is as good as any other such bound, and a
  start at or past the end gives nothing: this is why the rounding of a very large parsed
  value cannot be seen in the page.\<close>

lemma slice_end_clamped:
  assumes "int (length xs) \<le> e" and "int (length xs) \<le> e'"
  shows "slice xs start (Num e) = slice xs start (Num e')"
  using assms by (simp add: slice_def Let_def)

lemma slice_start_past_end:
  assumes "int (length xs) \<le> s"
  shows "slice xs (Num s) endIdx = []"
  using assms by (simp add: slice_def Let_def)

subsection \<open>The outcomes of parsing and checking one parameter\<close>

lemma parseTake_absent: "parseTake None = Inr (Num 10)"
  by (simp add: parseTake_def)

lemma parseTake_ok: "parseInt a = Num t \<Longrightarrow> 1 \<le> t \<Longrightarrow> parseTake (Some a) = Inr (Num t)"
  by (simp add: parseTake_def)

lemma parseTake_nonpositive:
  "parseInt a = Num t \<Longrightarrow> t \<le> 0 \<Longrightarrow> parseTake (Some a) = Inl (TakeNotPositive (Num t))"
  by (simp add: parseTake_def)

lemma parseTake_nan: "parseInt a = NaN \<Longrightarrow> parseTake (Some a) = Inl (InvalidTakeParameter a)"
  by (simp add: parseTake_def)

lemma parseSkip_absent: "parseSkip None = Inr (Num 0)"
  by (simp add: parseSkip_def)

lemma parseSkip_ok: "parseInt b = Num s \<Longrightarrow> 0 \<le> s \<Longrightarrow> parseSkip (Some b) = Inr (Num s)"
  by (simp add: parseSkip_def)

lemma parseSkip_negative:
  "parseInt b = Num s \<Longrightarrow> s < 0 \<Longrightarrow> parseSkip (Some b) = Inl (SkipNegative (Num s))"
  by (simp add: parseSkip_def)

lemma parseSkip_nan: "parseInt b = NaN \<Longrightarrow> parseSkip (Some b) = Inl (InvalidSkipParameter b)"
  by (simp add: parseSkip_def)

lemma parseTake_Inr:
  assumes "parseTake qt = Inr n"
  shows "\<exists>t. n = Num t \<and> 1 \<le> t"
proof (cases qt)
  case None
  with assms show ?thesis by (auto simp: parseTake_def)
next
  case (Some a)
  show ?thesis
  proof (cases "parseInt a")
    case NaN
    with assms Some show ?thesis by (simp add: parseTake_def)
  next
    case (Num t)
    with assms Some have "\<not> t \<le> 0" and "n = Num t"
      by (simp_all add: parseTake_def Let_def split: if_splits)
    then show ?thesis by simp
  qed
qed

lemma parseSkip_Inr:
  assumes "parseSkip qs = Inr n"
  shows "\<exists>s. n = Num s \<and> 0 \<le> s"
proof (cases qs)
  case None
  with assms show ?thesis by (auto simp: parseSkip_def)
next
  case (Some b)
  show ?thesis
  proof (cases "parseInt b")
    case NaN
    with assms Some show ?thesis by (simp add: parseSkip_def)
  next
    case (Num s)
    with assms Some have "\<not> s < 0" and "n = Num s"
      by (simp_all add: parseSkip_def Let_def split: if_splits)
    then show ?thesis by simp
  qed
qed

lemma parseTake_effective:
  assumes "case qt of None \<Rightarrow> t = 10 | Some a \<Rightarrow> parseInt a = Num t" and "1 \<le> t"
  shows "parseTake qt = Inr (Num t)"
  using assms by (cases qt) (simp_all add: parseTake_absent parseTake_ok)

lemma parseSkip_effective:
  assumes "case qs of None \<Rightarrow> s = 0 | Some b \<Rightarrow> parseInt b = Num s" and "0 \<le> s"
  shows "parseSkip qs = Inr (Num s)"
  using assms by (cases qs) (simp_all add: parseSkip_absent parseSkip_ok)

subsection \<open>The two outcomes of the service\<close>

lemma getMailPaginated_ok:
  assumes "parseTake (take_q query) = Inr (Num t)" and "parseSkip (skip_q query) = Inr (Num s)"
    and "1 \<le> t" and "0 \<le> s"
  shows "getMailPaginated query w =
           (Inr \<lparr>mails = take (nat t) (drop (nat s) (mails_src w)),
                 totalCount = Num (int (length (mails_src w)))\<rparr>, w)"
  using assms
  by (simp add: getMailPaginated_def parseTakeSkip_def plainToInstance_def Let_def slice_window
       del: num_add.simps)

lemma getMailPaginated_fails:
  "parseTakeSkip query = Inl e \<Longrightarrow>
   getMailPaginated query w =
     (Inl (BadRequestException (Single ''Invalid take, skip'')),
      w\<lparr>logger := logger w @ [ErrorParsingTakeSkip e]\<rparr>)"
  by (simp add: getMailPaginated_def)

subsection \<open>Digits, decimal strings and the validator\<close>


lemma digit_not_sign: "isDigit c \<Longrightarrow> c \<noteq> CHR ''+'' \<and> c \<noteq> CHR ''-'' \<and> c \<noteq> CHR ''.''"
  by (auto simp: isDigit_def)

lemma dot_not_digit: "\<not> isDigit CHR ''.''"
  by (simp add: isDigit_def)

lemma digitValue_nonneg: "isDigit c \<Longrightarrow> 0 \<le> digitValue c"
  by (auto simp: isDigit_def digitValue_def)

lemma foldl_digits_nonneg:
  "list_all isDigit Z \<Longrightarrow> 0 \<le> acc \<Longrightarrow> 0 \<le> foldl (\<lambda>acc c. 10 * acc + digitValue c) acc Z"
  by (induction Z arbitrary: acc) (simp_all add: digitValue_nonneg)

lemma digitsValue_nonneg: "list_all isDigit Z \<Longrightarrow> 0 \<le> digitsValue Z"
  by (simp add: digitsValue_def foldl_digits_nonneg)

lemma takeWhile_digits:
  "list_all isDigit ip \<Longrightarrow> takeWhile isDigit (ip @ CHR ''.'' # fp) = ip"
  by (induction ip) (simp_all add: dot_not_digit)

lemma dropWhile_digits:
  "list_all isDigit ip \<Longrightarrow> dropWhile isDigit (ip @ CHR ''.'' # fp) = CHR ''.'' # fp"
  by (induction ip) (simp_all add: dot_not_digit)

lemma takeWhile_all_digits: "list_all isDigit ip \<Longrightarrow> takeWhile isDigit ip = ip"
  by (induction ip) simp_all

lemma dropWhile_all_digits: "list_all isDigit ip \<Longrightarrow> dropWhile isDigit ip = []"
  by (induction ip) simp_all



lemma isNumeric_decimal:
  assumes "list_all isDigit ip" and "ip \<noteq> []" and "list_all isDigit fp" and "fp \<noteq> []"
  shows "isNumeric (ip @ ''.'' @ fp)"
proof -
  from assms obtain c cs where ip: "ip = c # cs" and c: "isDigit c"
    by (cases ip) auto
  have "hd (ip @ CHR ''.'' # fp) = c"
    using ip by simp
  moreover note tw = takeWhile_digits [OF assms(1), of fp]
  moreover note dw = dropWhile_digits [OF assms(1), of fp]
  ultimately show ?thesis
    using assms(2-4) c by (simp add: isNumeric_def Let_def digit_not_sign tw dw)
qed

lemma isNumeric_digits:
  assumes "list_all isDigit ip" and "ip \<noteq> []"
  shows "isNumeric ip"
proof -
  from assms obtain c cs where ip: "ip = c # cs" and c: "isDigit c"
    by (cases ip) auto
  have "hd ip = c"
    using ip by simp
  moreover note tw = takeWhile_all_digits [OF assms(1)]
  moreover note dw = dropWhile_all_digits [OF assms(1)]
  ultimately show ?thesis
    using assms(2) c by (simp add: isNumeric_def Let_def digit_not_sign tw dw)
qed






lemma GET_mails_valid: "validate query = [] \<Longrightarrow> GET_mails query w = getMailPaginated query w"
  by (simp add: GET_mails_def validationPipe_def getMails_def)

lemma GET_mails_invalid:
  "validate query \<noteq> [] \<Longrightarrow> GET_mails query w = (Inl (BadRequestException (Many (validate query))), w)"
  by (cases "validate query") (simp_all add: GET_mails_def validationPipe_def)

lemmas parse_eval = parseInt_def isWhiteSpace_def isDigit_def digitValue_def digitsValue_def Let_def
lemmas validate_eval = validate_def validateField_def isNumberString_def isNumeric_def isDigit_def Let_def
lemmas service_eval = getMailPaginated_def parseTakeSkip_def parseTake_def parseSkip_def slice_def
  plainToInstance_def
lemmas endpoint_eval = GET_mails_def validationPipe_def getMails_def

lemma parseTakeSkip_ok:
  assumes "case take_q query of None \<Rightarrow> t = 10 | Some a \<Rightarrow> parseInt a = Num t"
    and "case skip_q query of None \<Rightarrow> s = 0 | Some b \<Rightarrow> parseInt b = Num s"
    and "1 \<le> t" and "0 \<le> s"
  shows "parseTake (take_q query) = Inr (Num t)" and "parseSkip (skip_q query) = Inr (Num s)"
  using assms by (simp_all add: parseTake_effective parseSkip_effective)

subsection \<open>The window of a successful call\<close>

lemma window_length:
  assumes "0 \<le> s" and "0 \<le> t"
  shows "int (length (take (nat t) (drop (nat s) xs))) = min t (max 0 (int (length xs) - s))"
proof -
  have "int (min (nat t) (length xs - nat s)) = min t (max 0 (int (length xs) - s))"
    using assms by arith
  then show ?thesis
    by (simp add: min.commute)
qed

section \<open>The claims\<close>

text \<open>
  Below, the number a parameter stands for is the default of the code when the field is
  absent (\<open>10\<close> for \<^verbatim>\<open>take\<close>, \<open>0\<close> for \<^verbatim>\<open>skip\<close>) and what \<open>parseInt\<close> makes of the
  string when it is present.
\<close>

text \<open>
  Claim C1. Whenever the parameters stand for \<open>take = t \<ge> 1\<close> and \<open>skip = s \<ge> 0\<close>, the call
  succeeds and returns \<open>min t (max 0 (totalCount - s))\<close> records, where \<open>totalCount\<close> is
  the size of the source; the list is empty when \<open>s\<close> is at or past the end, and it is
  all that remains from \<open>s\<close> on when \<open>s + t\<close> reaches past the end.
\<close>
theorem getMailPaginated_length:
  assumes "case take_q query of None \<Rightarrow> t = 10 | Some a \<Rightarrow> parseInt a = Num t"
    and "case skip_q query of None \<Rightarrow> s = 0 | Some b \<Rightarrow> parseInt b = Num s"
    and "1 \<le> t" and "0 \<le> s"
  shows "\<exists>r. fst (getMailPaginated query w) = Inr r \<and>
             int (length (mails r)) = min t (max 0 (int (length (mails_src w)) - s)) \<and>
             (int (length (mails_src w)) \<le> s \<longrightarrow> mails r = []) \<and>
             (int (length (mails_src w)) \<le> s + t \<longrightarrow> mails r = drop (nat s) (mails_src w))"
proof -
  let ?r = "\<lparr>mails = take (nat t) (drop (nat s) (mails_src w)),
             totalCount = Num (int (length (mails_src w)))\<rparr>"
  have "getMailPaginated query w = (Inr ?r, w)"
    using parseTakeSkip_ok [OF assms] assms(3,4) by (rule getMailPaginated_ok)
  then have res: "fst (getMailPaginated query w) = Inr ?r"
    by simp
  have len: "int (length (mails ?r)) = min t (max 0 (int (length (mails_src w)) - s))"
    using assms(3,4) by (simp add: window_length)
  have past: "int (length (mails_src w)) \<le> s \<longrightarrow> mails ?r = []"
    using assms(4) by simp
  have rest: "int (length (mails_src w)) \<le> s + t \<longrightarrow> mails ?r = drop (nat s) (mails_src w)"
    using assms(3,4) by simp
  from res len past rest show ?thesis
    by blast
qed

theorem getMailPaginated_length_witness:
  "parseInt ''10'' = Num 10 \<and> parseInt ''2'' = Num 2 \<and>
   (\<exists>r. fst (getMailPaginated \<lparr>take_q = Some ''10'', skip_q = Some ''2''\<rparr> mockWorld) = Inr r \<and>
        length (mails r) = 1)"
proof -
  have t: "parseInt ''10'' = Num 10" and s: "parseInt ''2'' = Num 2"
    by (simp_all add: parse_eval)
  have n: "length (mails_src mockWorld) = 3"
    by (simp add: mockWorld_def mockMails_def)
  from getMailPaginated_length [where query = "\<lparr>take_q = Some ''10'', skip_q = Some ''2''\<rparr>"
      and t = 10 and s = 2 and w = mockWorld]
  obtain r where "fst (getMailPaginated \<lparr>take_q = Some ''10'', skip_q = Some ''2''\<rparr> mockWorld) = Inr r"
    and "int (length (mails r)) = min 10 (max 0 (int (length (mails_src mockWorld)) - 2))"
    using t s by auto
  then show ?thesis
    using t s n by auto
qed

text \<open>
  Claim C2. Every call that succeeds reports as \<open>totalCount\<close> the size of the whole
  source, whatever \<^verbatim>\<open>take\<close> and \<^verbatim>\<open>skip\<close> were.
\<close>
theorem totalCount_is_collection_size:
  assumes "fst (getMailPaginated query w) = Inr r"
  shows "totalCount r = Num (int (length (mails_src w)))"
proof (cases "parseTakeSkip query")
  case (Inl e)
  with assms show ?thesis
    by (simp add: getMailPaginated_def)
next
  case (Inr p)
  with assms show ?thesis
    by (cases p) (auto simp: getMailPaginated_def plainToInstance_def Let_def)
qed

theorem totalCount_is_collection_size_witness:
  "fst (getMailPaginated \<lparr>take_q = Some ''1'', skip_q = Some ''5''\<rparr> mockWorld) =
     Inr \<lparr>mails = [], totalCount = Num 3\<rparr> \<and>
   totalCount \<lparr>mails = [], totalCount = Num 3\<rparr> = Num (int (length (mails_src mockWorld)))"
proof -
  have r: "fst (getMailPaginated \<lparr>take_q = Some ''1'', skip_q = Some ''5''\<rparr> mockWorld) =
     Inr \<lparr>mails = [], totalCount = Num 3\<rparr>"
    by (simp add: service_eval parse_eval mockWorld_def mockMails_def)
  from r totalCount_is_collection_size [OF r] show ?thesis
    by simp
qed

text \<open>
  Claim C3. Whenever the parameters stand for \<open>take = t \<ge> 1\<close> and \<open>skip = s \<ge> 0\<close>, the
  returned list is the run of at most \<open>t\<close> consecutive records of the source that starts
  at index \<open>s\<close>: its \<open>i\<close>-th record is the source's record \<open>s + i\<close>.
\<close>
theorem getMailPaginated_contiguous:
  assumes "case take_q query of None \<Rightarrow> t = 10 | Some a \<Rightarrow> parseInt a = Num t"
    and "case skip_q query of None \<Rightarrow> s = 0 | Some b \<Rightarrow> parseInt b = Num s"
    and "1 \<le> t" and "0 \<le> s"
  shows "\<exists>r. fst (getMailPaginated query w) = Inr r \<and>
             mails r = take (nat t) (drop (nat s) (mails_src w)) \<and>
             (\<forall>i < length (mails r). mails r ! i = mails_src w ! (nat s + i))"
proof -
  let ?r = "\<lparr>mails = take (nat t) (drop (nat s) (mails_src w)),
             totalCount = Num (int (length (mails_src w)))\<rparr>"
  have "getMailPaginated query w = (Inr ?r, w)"
    using parseTakeSkip_ok [OF assms] assms(3,4) by (rule getMailPaginated_ok)
  then have res: "fst (getMailPaginated query w) = Inr ?r"
    by simp
  have "\<forall>i < length (mails ?r). mails ?r ! i = mails_src w ! (nat s + i)"
    by auto
  with res show ?thesis
    by (intro exI [of _ ?r]) simp
qed

theorem getMailPaginated_contiguous_witness:
  "parseInt ''2'' = Num 2 \<and> parseInt ''1'' = Num 1 \<and>
   (\<exists>r. fst (getMailPaginated \<lparr>take_q = Some ''2'', skip_q = Some ''1''\<rparr> mockWorld) = Inr r \<and>
        map mail_id (mails r) = [Some 2, Some 3])"
proof -
  have t: "parseInt ''2'' = Num 2" and s: "parseInt ''1'' = Num 1"
    by (simp_all add: parse_eval)
  from getMailPaginated_contiguous [where query = "\<lparr>take_q = Some ''2'', skip_q = Some ''1''\<rparr>"
      and t = 2 and s = 1 and w = mockWorld]
  obtain r where "fst (getMailPaginated \<lparr>take_q = Some ''2'', skip_q = Some ''1''\<rparr> mockWorld) = Inr r"
    and "mails r = take (nat 2) (drop (nat 1) (mails_src mockWorld))"
    using t s by auto
  then show ?thesis
    using t s by (auto simp: mockWorld_def mockMails_def)
qed

lemma parseInt_10: "parseInt ''10'' = Num 10"
  by (simp add: parse_eval)

lemma parseInt_0: "parseInt ''0'' = Num 0"
  by (simp add: parse_eval)

lemma parseTake_default: "parseTake (Some ''10'') = parseTake None"
  by (simp add: parseTake_def parseInt_10)

lemma parseSkip_default: "parseSkip (Some ''0'') = parseSkip None"
  by (simp add: parseSkip_def parseInt_0)

text \<open>
  Claim C4. A call without \<^verbatim>\<open>take\<close> behaves as the call with \<^verbatim>\<open>take = "10"\<close>, a call
  without \<^verbatim>\<open>skip\<close> as the call with \<^verbatim>\<open>skip = "0"\<close> (result and log alike); with both
  absent the numbers used are 10 and 0, the call succeeds and returns the first ten
  records, or all of them when there are fewer.
\<close>
theorem absent_parameters_default:
  "parseTakeSkip \<lparr>take_q = None, skip_q = None\<rparr> = Inr (Num 10, Num 0) \<and>
   getMailPaginated \<lparr>take_q = None, skip_q = sk\<rparr> w =
     getMailPaginated \<lparr>take_q = Some ''10'', skip_q = sk\<rparr> w \<and>
   getMailPaginated \<lparr>take_q = tk, skip_q = None\<rparr> w =
     getMailPaginated \<lparr>take_q = tk, skip_q = Some ''0''\<rparr> w \<and>
   getMailPaginated \<lparr>take_q = None, skip_q = None\<rparr> w =
     (Inr \<lparr>mails = take 10 (mails_src w), totalCount = Num (int (length (mails_src w)))\<rparr>, w)"
proof -
  have both: "parseTakeSkip \<lparr>take_q = None, skip_q = None\<rparr> = Inr (Num 10, Num 0)"
    by (simp add: parseTakeSkip_def parseTake_absent parseSkip_absent)
  have tk: "getMailPaginated \<lparr>take_q = None, skip_q = sk\<rparr> w =
      getMailPaginated \<lparr>take_q = Some ''10'', skip_q = sk\<rparr> w"
    by (simp add: getMailPaginated_def parseTakeSkip_def parseTake_default parseTake_absent)
  have sk: "getMailPaginated \<lparr>take_q = tk, skip_q = None\<rparr> w =
      getMailPaginated \<lparr>take_q = tk, skip_q = Some ''0''\<rparr> w"
    by (simp add: getMailPaginated_def parseTakeSkip_def parseSkip_default cong: sum.case_cong)
  have "getMailPaginated \<lparr>take_q = None, skip_q = None\<rparr> w =
      (Inr \<lparr>mails = take (nat 10) (drop (nat 0) (mails_src w)),
            totalCount = Num (int (length (mails_src w)))\<rparr>, w)"
    by (rule getMailPaginated_ok) (simp_all add: parseTake_absent parseSkip_absent)
  then have first: "getMailPaginated \<lparr>take_q = None, skip_q = None\<rparr> w =
      (Inr \<lparr>mails = take 10 (mails_src w), totalCount = Num (int (length (mails_src w)))\<rparr>, w)"
    by simp
  from both tk sk first show ?thesis
    by simp
qed

theorem absent_parameters_default_witness:
  "map mail_id (mails (projr (fst (getMailPaginated \<lparr>take_q = None, skip_q = None\<rparr> mockWorld)))) =
     [Some 1, Some 2, Some 3] \<and>
   getMailPaginated \<lparr>take_q = None, skip_q = Some ''1''\<rparr> mockWorld =
     getMailPaginated \<lparr>take_q = Some ''10'', skip_q = Some ''1''\<rparr> mockWorld \<and>
   getMailPaginated \<lparr>take_q = Some ''2'', skip_q = None\<rparr> mockWorld =
     getMailPaginated \<lparr>take_q = Some ''2'', skip_q = Some ''0''\<rparr> mockWorld"
  using absent_parameters_default [of "Some ''1''" mockWorld "Some ''2''"]
  by (simp add: mockWorld_def mockMails_def)

lemma parseTakeSkip_take_fails:
  "parseTake (take_q query) = Inl e \<Longrightarrow> parseTakeSkip query = Inl e"
  by (simp add: parseTakeSkip_def)

lemma parseTakeSkip_skip_fails:
  "parseTake (take_q query) = Inr n \<Longrightarrow> parseSkip (skip_q query) = Inl e \<Longrightarrow>
   parseTakeSkip query = Inl e"
  by (simp add: parseTakeSkip_def)

lemma parseTakeSkip_some_fails:
  assumes "parseTake (take_q query) = Inl e \<or> parseSkip (skip_q query) = Inl e"
  shows "\<exists>e'. parseTakeSkip query = Inl e'"
  using assms by (cases "parseTake (take_q query)") (auto simp: parseTakeSkip_def)

lemma getMailPaginated_rejects:
  assumes "parseTake (take_q query) = Inl e \<or> parseSkip (skip_q query) = Inl e"
  shows "fst (getMailPaginated query w) = Inl (BadRequestException (Single ''Invalid take, skip''))"
proof -
  from parseTakeSkip_some_fails [OF assms] obtain e' where "parseTakeSkip query = Inl e'" ..
  then show ?thesis
    by (simp add: getMailPaginated_fails)
qed

lemma validate_messages:
  "set (validate query) \<subseteq> {''take must be a valid number'', ''skip must be a valid number''}"
  by (cases "take_q query"; cases "skip_q query") (auto simp: validate_def validateField_def)

lemma validate_take_message:
  "(''take must be a valid number'' \<in> set (validate query)) =
   (\<exists>a. take_q query = Some a \<and> \<not> isNumberString a)"
  by (cases "take_q query"; cases "skip_q query") (auto simp: validate_def validateField_def)

lemma validate_skip_message:
  "(''skip must be a valid number'' \<in> set (validate query)) =
   (\<exists>b. skip_q query = Some b \<and> \<not> isNumberString b)"
  by (cases "take_q query"; cases "skip_q query") (auto simp: validate_def validateField_def)

lemma validate_nonempty:
  assumes "(\<exists>a. take_q query = Some a \<and> \<not> isNumberString a) \<or>
           (\<exists>b. skip_q query = Some b \<and> \<not> isNumberString b)"
  shows "validate query \<noteq> []"
  using assms validate_take_message [of query] validate_skip_message [of query]
  by (auto simp del: set_empty simp add: set_empty [symmetric])

text \<open>
  Claim C5. A call in which \<^verbatim>\<open>take\<close> parses to an integer \<open>\<le> 0\<close> or \<^verbatim>\<open>skip\<close> to an integer
  \<open>< 0\<close> fails with the bad request whose message is the single string
  \<^verbatim>\<open>Invalid take, skip\<close>. A request with a field that is not a numeric string is answered
  by the validation layer with a bad request whose message is the non-empty list of the
  messages of exactly the failed fields. The two answers differ.
\<close>
theorem range_error_is_generic_message:
  assumes "(\<exists>a t. take_q query = Some a \<and> parseInt a = Num t \<and> t \<le> 0) \<or>
           (\<exists>b s. skip_q query = Some b \<and> parseInt b = Num s \<and> s < 0)"
    and "(\<exists>a. take_q query' = Some a \<and> \<not> isNumberString a) \<or>
         (\<exists>b. skip_q query' = Some b \<and> \<not> isNumberString b)"
  shows "fst (getMailPaginated query w) = Inl (BadRequestException (Single ''Invalid take, skip'')) \<and>
         fst (GET_mails query' w') = Inl (BadRequestException (Many (validate query'))) \<and>
         validate query' \<noteq> [] \<and>
         set (validate query') \<subseteq> {''take must be a valid number'', ''skip must be a valid number''} \<and>
         (''take must be a valid number'' \<in> set (validate query')) =
           (\<exists>a. take_q query' = Some a \<and> \<not> isNumberString a) \<and>
         (''skip must be a valid number'' \<in> set (validate query')) =
           (\<exists>b. skip_q query' = Some b \<and> \<not> isNumberString b) \<and>
         fst (getMailPaginated query w) \<noteq> fst (GET_mails query' w')"
proof -
  from assms(1) have "\<exists>e. parseTake (take_q query) = Inl e \<or> parseSkip (skip_q query) = Inl e"
  proof
    assume "\<exists>a t. take_q query = Some a \<and> parseInt a = Num t \<and> t \<le> 0"
    then obtain a t where "take_q query = Some a" and "parseInt a = Num t" and "t \<le> 0"
      by blast
    then have "parseTake (take_q query) = Inl (TakeNotPositive (Num t))"
      by (simp add: parseTake_nonpositive)
    then show ?thesis by blast
  next
    assume "\<exists>b s. skip_q query = Some b \<and> parseInt b = Num s \<and> s < 0"
    then obtain b s where "skip_q query = Some b" and "parseInt b = Num s" and "s < 0"
      by blast
    then have "parseSkip (skip_q query) = Inl (SkipNegative (Num s))"
      by (simp add: parseSkip_negative)
    then show ?thesis by blast
  qed
  then obtain e where "parseTake (take_q query) = Inl e \<or> parseSkip (skip_q query) = Inl e" ..
  then have service: "fst (getMailPaginated query w) =
      Inl (BadRequestException (Single ''Invalid take, skip''))"
    by (rule getMailPaginated_rejects)
  have ne: "validate query' \<noteq> []"
    using assms(2) by (rule validate_nonempty)
  then have pipe: "fst (GET_mails query' w') = Inl (BadRequestException (Many (validate query')))"
    by (simp add: GET_mails_invalid)
  from service pipe have "fst (getMailPaginated query w) \<noteq> fst (GET_mails query' w')"
    by simp
  with service pipe ne validate_messages [of query'] validate_take_message [of query']
    validate_skip_message [of query']
  show ?thesis
    by blast
qed


theorem range_error_is_generic_message_witness:
  "parseInt ''0'' = Num 0 \<and> \<not> isNumberString ''invalid'' \<and>
   fst (getMailPaginated \<lparr>take_q = Some ''0'', skip_q = None\<rparr> mockWorld) =
     Inl (BadRequestException (Single ''Invalid take, skip'')) \<and>
   fst (GET_mails \<lparr>take_q = Some ''invalid'', skip_q = None\<rparr> mockWorld) =
     Inl (BadRequestException (Many [''take must be a valid number'']))"
proof -
  have z: "parseInt ''0'' = Num 0"
    by (simp add: parse_eval)
  have n: "\<not> isNumberString ''invalid''"
    by (simp add: validate_eval)
  have v: "validate \<lparr>take_q = Some ''invalid'', skip_q = None\<rparr> = [''take must be a valid number'']"
    by (simp add: validate_def validateField_def n)
  from range_error_is_generic_message
    [where query = "\<lparr>take_q = Some ''0'', skip_q = None\<rparr>"
       and query' = "\<lparr>take_q = Some ''invalid'', skip_q = None\<rparr>"
       and w = mockWorld and w' = mockWorld]
  show ?thesis
    using z n v by simp
qed

lemma take_in_range_cases:
  assumes "case qt of None \<Rightarrow> True | Some a \<Rightarrow> \<exists>t. parseInt a = Num t \<and> 1 \<le> t"
  shows "\<exists>n. parseTake qt = Inr n"
  using assms by (cases qt) (auto simp: parseTake_absent parseTake_ok)

lemma getMailPaginated_logs:
  "parseTakeSkip query = Inl e \<Longrightarrow>
   logger (snd (getMailPaginated query w)) = logger w @ [ErrorParsingTakeSkip e]"
  by (simp add: getMailPaginated_fails)

text \<open>
  Claim C6, as the code has it. A call in which a provided \<^verbatim>\<open>take\<close> or \<^verbatim>\<open>skip\<close> parses to
  \<^verbatim>\<open>NaN\<close> fails with the bad request \<^verbatim>\<open>Invalid take, skip\<close>, the same for either
  parameter, and returns no result. The error that names the parameter is the one thrown
  and logged inside: \<^verbatim>\<open>Invalid take parameter\<close> whenever \<^verbatim>\<open>take\<close> parses to \<^verbatim>\<open>NaN\<close>, and
  \<^verbatim>\<open>Invalid skip parameter\<close> when \<^verbatim>\<open>skip\<close> parses to \<^verbatim>\<open>NaN\<close> and \<^verbatim>\<open>take\<close> is absent or parses
  to an integer \<open>\<ge> 1\<close>.
\<close>
theorem not_a_number_rejected_generically:
  assumes "(\<exists>a. take_q query = Some a \<and> parseInt a = NaN) \<or>
           (\<exists>b. skip_q query = Some b \<and> parseInt b = NaN)"
  shows "fst (getMailPaginated query w) = Inl (BadRequestException (Single ''Invalid take, skip'')) \<and>
         (\<forall>a. take_q query = Some a \<and> parseInt a = NaN \<longrightarrow>
              parseTakeSkip query = Inl (InvalidTakeParameter a) \<and>
              logger (snd (getMailPaginated query w)) =
                logger w @ [ErrorParsingTakeSkip (InvalidTakeParameter a)]) \<and>
         (\<forall>b. skip_q query = Some b \<and> parseInt b = NaN \<and>
              (case take_q query of None \<Rightarrow> True | Some a \<Rightarrow> \<exists>t. parseInt a = Num t \<and> 1 \<le> t) \<longrightarrow>
              parseTakeSkip query = Inl (InvalidSkipParameter b) \<and>
              logger (snd (getMailPaginated query w)) =
                logger w @ [ErrorParsingTakeSkip (InvalidSkipParameter b)])"
proof -
  have "\<exists>e. parseTake (take_q query) = Inl e \<or> parseSkip (skip_q query) = Inl e"
    using assms by (auto simp: parseTake_nan parseSkip_nan)
  then obtain e where "parseTake (take_q query) = Inl e \<or> parseSkip (skip_q query) = Inl e" ..
  then have surfaced: "fst (getMailPaginated query w) =
      Inl (BadRequestException (Single ''Invalid take, skip''))"
    by (rule getMailPaginated_rejects)
  have tk: "parseTakeSkip query = Inl (InvalidTakeParameter a) \<and>
      logger (snd (getMailPaginated query w)) =
        logger w @ [ErrorParsingTakeSkip (InvalidTakeParameter a)]"
    if "take_q query = Some a \<and> parseInt a = NaN" for a
  proof -
    from that have "parseTakeSkip query = Inl (InvalidTakeParameter a)"
      by (simp add: parseTakeSkip_take_fails parseTake_nan)
    then show ?thesis
      by (simp add: getMailPaginated_logs)
  qed
  have sk: "parseTakeSkip query = Inl (InvalidSkipParameter b) \<and>
      logger (snd (getMailPaginated query w)) =
        logger w @ [ErrorParsingTakeSkip (InvalidSkipParameter b)]"
    if "skip_q query = Some b \<and> parseInt b = NaN \<and>
        (case take_q query of None \<Rightarrow> True | Some a \<Rightarrow> \<exists>t. parseInt a = Num t \<and> 1 \<le> t)" for b
  proof -
    from that obtain n where "parseTake (take_q query) = Inr n"
      using take_in_range_cases by blast
    with that have "parseTakeSkip query = Inl (InvalidSkipParameter b)"
      by (simp add: parseTakeSkip_skip_fails parseSkip_nan)
    then show ?thesis
      by (simp add: getMailPaginated_logs)
  qed
  from surfaced tk sk show ?thesis
    by blast
qed

theorem not_a_number_rejected_generically_witness:
  "parseInt ''abc'' = NaN \<and>
   getMailPaginated \<lparr>take_q = None, skip_q = Some ''abc''\<rparr> mockWorld =
     (Inl (BadRequestException (Single ''Invalid take, skip'')),
      mockWorld\<lparr>logger := [ErrorParsingTakeSkip (InvalidSkipParameter ''abc'')]\<rparr>)"
proof -
  have n: "parseInt ''abc'' = NaN"
    by (simp add: parse_eval)
  from not_a_number_rejected_generically
    [where query = "\<lparr>take_q = None, skip_q = Some ''abc''\<rparr>" and w = mockWorld]
  have "fst (getMailPaginated \<lparr>take_q = None, skip_q = Some ''abc''\<rparr> mockWorld) =
          Inl (BadRequestException (Single ''Invalid take, skip''))"
    and "parseTakeSkip \<lparr>take_q = None, skip_q = Some ''abc''\<rparr> = Inl (InvalidSkipParameter ''abc'')"
    using n by simp_all
  then show ?thesis
    using n by (simp add: getMailPaginated_fails mockWorld_def)
qed

text \<open>
  The claim as it was stated fails: with \<^verbatim>\<open>take = "0"\<close> and \<^verbatim>\<open>skip = "abc"\<close> the \<^verbatim>\<open>skip\<close>
  string parses to \<^verbatim>\<open>NaN\<close>, yet the error thrown is the one about \<^verbatim>\<open>take\<close> not being
  positive; and the bad request a client gets for a non-numeric \<^verbatim>\<open>take\<close> is the one it
  gets for a non-numeric \<^verbatim>\<open>skip\<close>.
\<close>

theorem not_a_number_counterexample:
  "parseInt ''abc'' = NaN \<and>
   parseTakeSkip \<lparr>take_q = Some ''0'', skip_q = Some ''abc''\<rparr> = Inl (TakeNotPositive (Num 0)) \<and>
   getMailPaginated \<lparr>take_q = Some ''0'', skip_q = Some ''abc''\<rparr> mockWorld =
     (Inl (BadRequestException (Single ''Invalid take, skip'')),
      mockWorld\<lparr>logger := [ErrorParsingTakeSkip (TakeNotPositive (Num 0))]\<rparr>) \<and>
   fst (getMailPaginated \<lparr>take_q = Some ''abc'', skip_q = None\<rparr> mockWorld) =
     fst (getMailPaginated \<lparr>take_q = None, skip_q = Some ''abc''\<rparr> mockWorld)"
proof -
  have n: "parseInt ''abc'' = NaN" and z: "parseInt ''0'' = Num 0"
    by (simp_all add: parse_eval)
  have p: "parseTakeSkip \<lparr>take_q = Some ''0'', skip_q = Some ''abc''\<rparr> = Inl (TakeNotPositive (Num 0))"
    by (simp add: parseTakeSkip_def parseTake_def z)
  have "fst (getMailPaginated \<lparr>take_q = Some ''abc'', skip_q = None\<rparr> mockWorld) =
      Inl (BadRequestException (Single ''Invalid take, skip''))"
    by (rule getMailPaginated_rejects [where e = "InvalidTakeParameter ''abc''"])
      (simp add: parseTake_nan n)
  moreover have "fst (getMailPaginated \<lparr>take_q = None, skip_q = Some ''abc''\<rparr> mockWorld) =
      Inl (BadRequestException (Single ''Invalid take, skip''))"
    by (rule getMailPaginated_rejects [where e = "InvalidSkipParameter ''abc''"])
      (simp add: parseSkip_nan n)
  ultimately show ?thesis
    using n p by (simp add: getMailPaginated_fails mockWorld_def)
qed

text \<open>
  Claim C7, as the code has it. A call in which a provided \<^verbatim>\<open>take\<close> parses to an integer
  \<open>\<le> 0\<close> fails on the error \<^verbatim>\<open>Take must be a positive number (minimum 1)\<close>, which is logged
  and answered as the bad request \<^verbatim>\<open>Invalid take, skip\<close>. A call in which a provided
  \<^verbatim>\<open>skip\<close> parses to an integer \<open>< 0\<close> fails with that bad request too, and the error
  thrown and logged is \<^verbatim>\<open>Skip must be a positive number or zero\<close> when \<^verbatim>\<open>take\<close> is absent or
  parses to an integer \<open>\<ge> 1\<close>. In both cases nothing is sliced: the result is the error.
\<close>
theorem out_of_range_rejected:
  "(\<forall>a t. take_q query = Some a \<and> parseInt a = Num t \<and> t \<le> 0 \<longrightarrow>
      parseTakeSkip query = Inl (TakeNotPositive (Num t)) \<and>
      getMailPaginated query w =
        (Inl (BadRequestException (Single ''Invalid take, skip'')),
         w\<lparr>logger := logger w @ [ErrorParsingTakeSkip (TakeNotPositive (Num t))]\<rparr>)) \<and>
   (\<forall>b s. skip_q query = Some b \<and> parseInt b = Num s \<and> s < 0 \<longrightarrow>
      fst (getMailPaginated query w) = Inl (BadRequestException (Single ''Invalid take, skip'')) \<and>
      ((case take_q query of None \<Rightarrow> True | Some a \<Rightarrow> \<exists>t. parseInt a = Num t \<and> 1 \<le> t) \<longrightarrow>
         parseTakeSkip query = Inl (SkipNegative (Num s)) \<and>
         getMailPaginated query w =
           (Inl (BadRequestException (Single ''Invalid take, skip'')),
            w\<lparr>logger := logger w @ [ErrorParsingTakeSkip (SkipNegative (Num s))]\<rparr>)))"
proof -
  have tk: "parseTakeSkip query = Inl (TakeNotPositive (Num t)) \<and>
      getMailPaginated query w =
        (Inl (BadRequestException (Single ''Invalid take, skip'')),
         w\<lparr>logger := logger w @ [ErrorParsingTakeSkip (TakeNotPositive (Num t))]\<rparr>)"
    if "take_q query = Some a \<and> parseInt a = Num t \<and> t \<le> 0" for a t
  proof -
    from that have "parseTakeSkip query = Inl (TakeNotPositive (Num t))"
      by (simp add: parseTakeSkip_take_fails parseTake_nonpositive)
    then show ?thesis
      by (simp add: getMailPaginated_fails)
  qed
  have sk: "fst (getMailPaginated query w) = Inl (BadRequestException (Single ''Invalid take, skip'')) \<and>
      ((case take_q query of None \<Rightarrow> True | Some a \<Rightarrow> \<exists>t. parseInt a = Num t \<and> 1 \<le> t) \<longrightarrow>
         parseTakeSkip query = Inl (SkipNegative (Num s)) \<and>
         getMailPaginated query w =
           (Inl (BadRequestException (Single ''Invalid take, skip'')),
            w\<lparr>logger := logger w @ [ErrorParsingTakeSkip (SkipNegative (Num s))]\<rparr>))"
    if "skip_q query = Some b \<and> parseInt b = Num s \<and> s < 0" for b s
  proof -
    from that have neg: "parseSkip (skip_q query) = Inl (SkipNegative (Num s))"
      by (simp add: parseSkip_negative)
    then have "parseTake (take_q query) = Inl (SkipNegative (Num s)) \<or>
        parseSkip (skip_q query) = Inl (SkipNegative (Num s))"
      by simp
    then have surfaced: "fst (getMailPaginated query w) =
        Inl (BadRequestException (Single ''Invalid take, skip''))"
      by (rule getMailPaginated_rejects)
    have "parseTakeSkip query = Inl (SkipNegative (Num s)) \<and>
         getMailPaginated query w =
           (Inl (BadRequestException (Single ''Invalid take, skip'')),
            w\<lparr>logger := logger w @ [ErrorParsingTakeSkip (SkipNegative (Num s))]\<rparr>)"
      if "case take_q query of None \<Rightarrow> True | Some a \<Rightarrow> \<exists>t. parseInt a = Num t \<and> 1 \<le> t"
    proof -
      from that obtain n where "parseTake (take_q query) = Inr n"
        using take_in_range_cases by blast
      with neg have "parseTakeSkip query = Inl (SkipNegative (Num s))"
        by (simp add: parseTakeSkip_skip_fails)
      then show ?thesis
        by (simp add: getMailPaginated_fails)
    qed
    with surfaced show ?thesis
      by blast
  qed
  from tk sk show ?thesis
    by blast
qed

theorem out_of_range_rejected_witness:
  "parseInt ''-5'' = Num (- 5) \<and> parseInt ''-1'' = Num (- 1) \<and> parseInt ''2'' = Num 2 \<and>
   getMailPaginated \<lparr>take_q = Some ''-5'', skip_q = Some ''0''\<rparr> mockWorld =
     (Inl (BadRequestException (Single ''Invalid take, skip'')),
      mockWorld\<lparr>logger := [ErrorParsingTakeSkip (TakeNotPositive (Num (- 5)))]\<rparr>) \<and>
   getMailPaginated \<lparr>take_q = Some ''2'', skip_q = Some ''-1''\<rparr> mockWorld =
     (Inl (BadRequestException (Single ''Invalid take, skip'')),
      mockWorld\<lparr>logger := [ErrorParsingTakeSkip (SkipNegative (Num (- 1)))]\<rparr>)"
proof -
  have p: "parseInt ''-5'' = Num (- 5)" "parseInt ''-1'' = Num (- 1)" "parseInt ''2'' = Num 2"
    by (simp_all add: parse_eval)
  have l: "logger mockWorld = []"
    by (simp add: mockWorld_def)
  from out_of_range_rejected
    [where query = "\<lparr>take_q = Some ''-5'', skip_q = Some ''0''\<rparr>" and w = mockWorld]
  have a: "getMailPaginated \<lparr>take_q = Some ''-5'', skip_q = Some ''0''\<rparr> mockWorld =
     (Inl (BadRequestException (Single ''Invalid take, skip'')),
      mockWorld\<lparr>logger := [ErrorParsingTakeSkip (TakeNotPositive (Num (- 5)))]\<rparr>)"
    using p l by simp
  from out_of_range_rejected
    [where query = "\<lparr>take_q = Some ''2'', skip_q = Some ''-1''\<rparr>" and w = mockWorld]
  have b: "getMailPaginated \<lparr>take_q = Some ''2'', skip_q = Some ''-1''\<rparr> mockWorld =
     (Inl (BadRequestException (Single ''Invalid take, skip'')),
      mockWorld\<lparr>logger := [ErrorParsingTakeSkip (SkipNegative (Num (- 1)))]\<rparr>)"
    using p l by simp
  from p a b show ?thesis
    by simp
qed

text \<open>
  The claim as it was stated fails: with \<^verbatim>\<open>take = "abc"\<close> and \<^verbatim>\<open>skip = "-1"\<close> the \<^verbatim>\<open>skip\<close>
  string parses to \<open>-1\<close>, yet the error the call fails on is
  \<^verbatim>\<open>Invalid take parameter: abc\<close>, thrown before \<^verbatim>\<open>skip\<close> is looked at.
\<close>

theorem skip_negative_counterexample:
  "parseInt ''-1'' = Num (- 1) \<and> parseInt ''abc'' = NaN \<and>
   parseTakeSkip \<lparr>take_q = Some ''abc'', skip_q = Some ''-1''\<rparr> = Inl (InvalidTakeParameter ''abc'') \<and>
   parseTakeSkip \<lparr>take_q = Some ''abc'', skip_q = Some ''-1''\<rparr> \<noteq> Inl (SkipNegative (Num (- 1))) \<and>
   getMailPaginated \<lparr>take_q = Some ''abc'', skip_q = Some ''-1''\<rparr> mockWorld =
     (Inl (BadRequestException (Single ''Invalid take, skip'')),
      mockWorld\<lparr>logger := [ErrorParsingTakeSkip (InvalidTakeParameter ''abc'')]\<rparr>)"
proof -
  have n: "parseInt ''abc'' = NaN" and m: "parseInt ''-1'' = Num (- 1)"
    by (simp_all add: parse_eval)
  have p: "parseTakeSkip \<lparr>take_q = Some ''abc'', skip_q = Some ''-1''\<rparr> =
      Inl (InvalidTakeParameter ''abc'')"
    by (simp add: parseTakeSkip_take_fails parseTake_nan n)
  with n m show ?thesis
    by (simp add: getMailPaginated_fails mockWorld_def)
qed

text \<open>
  Claim C9. A call, failed or not, leaves the source collection as it was (a failed call
  adds a line to the log and nothing else), and its result depends on the query and the
  source only: the same call made again, or made in any state with the same source,
  gives the same result.
\<close>
theorem getMailPaginated_reads_only:
  "mails_src (snd (getMailPaginated query w)) = mails_src w \<and>
   fst (getMailPaginated query (snd (getMailPaginated query w))) = fst (getMailPaginated query w) \<and>
   (mails_src w' = mails_src w \<longrightarrow> fst (getMailPaginated query w') = fst (getMailPaginated query w))"
proof (cases "parseTakeSkip query")
  case (Inl e)
  then show ?thesis
    by (simp add: getMailPaginated_fails)
next
  case (Inr p)
  then show ?thesis
    by (cases p) (simp add: getMailPaginated_def Let_def)
qed

theorem getMailPaginated_reads_only_witness:
  "mails_src (snd (getMailPaginated \<lparr>take_q = Some ''0'', skip_q = None\<rparr> mockWorld)) = mockMails \<and>
   logger (snd (getMailPaginated \<lparr>take_q = Some ''0'', skip_q = None\<rparr> mockWorld)) \<noteq> logger mockWorld \<and>
   fst (getMailPaginated \<lparr>take_q = Some ''0'', skip_q = None\<rparr>
          (snd (getMailPaginated \<lparr>take_q = Some ''0'', skip_q = None\<rparr> mockWorld))) =
     fst (getMailPaginated \<lparr>take_q = Some ''0'', skip_q = None\<rparr> mockWorld)"
proof -
  have z: "parseInt ''0'' = Num 0"
    by (simp add: parse_eval)
  have "parseTakeSkip \<lparr>take_q = Some ''0'', skip_q = None\<rparr> = Inl (TakeNotPositive (Num 0))"
    by (simp add: parseTakeSkip_take_fails parseTake_nonpositive z)
  then have "logger (snd (getMailPaginated \<lparr>take_q = Some ''0'', skip_q = None\<rparr> mockWorld)) \<noteq>
      logger mockWorld"
    by (simp add: getMailPaginated_logs)
  with getMailPaginated_reads_only
    [where query = "\<lparr>take_q = Some ''0'', skip_q = None\<rparr>" and w = mockWorld and w' = mockWorld]
  show ?thesis
    by (simp add: mockWorld_def)
qed

text \<open>
  Claim C10. The string \<^verbatim>\<open>.5\<close> passes the numeric-string check, so a request with
  \<^verbatim>\<open>take=.5\<close> gets through the validation layer; \<^verbatim>\<open>parseInt\<close> makes \<^verbatim>\<open>NaN\<close> of it, and the
  request is answered by the service with the bad request \<^verbatim>\<open>Invalid take, skip\<close>, not
  with the per-field message of the validation layer.
\<close>
theorem validated_string_may_not_parse:
  "isNumberString ''.5'' \<and>
   validationPipe \<lparr>take_q = Some ''.5'', skip_q = None\<rparr> = Inr \<lparr>take_q = Some ''.5'', skip_q = None\<rparr> \<and>
   parseInt ''.5'' = NaN \<and>
   GET_mails \<lparr>take_q = Some ''.5'', skip_q = None\<rparr> w =
     (Inl (BadRequestException (Single ''Invalid take, skip'')),
      w\<lparr>logger := logger w @ [ErrorParsingTakeSkip (InvalidTakeParameter ''.5'')]\<rparr>) \<and>
   fst (GET_mails \<lparr>take_q = Some ''.5'', skip_q = None\<rparr> w) \<noteq>
     Inl (BadRequestException (Many [''take must be a valid number'']))"
proof -
  have v: "isNumberString ''.5''"
    by (simp add: validate_eval)
  have n: "parseInt ''.5'' = NaN"
    by (simp add: parse_eval)
  have ok: "validate \<lparr>take_q = Some ''.5'', skip_q = None\<rparr> = []"
    by (simp add: validate_def validateField_def v)
  then have pipe: "validationPipe \<lparr>take_q = Some ''.5'', skip_q = None\<rparr> =
      Inr \<lparr>take_q = Some ''.5'', skip_q = None\<rparr>"
    by (simp add: validationPipe_def)
  have "parseTakeSkip \<lparr>take_q = Some ''.5'', skip_q = None\<rparr> = Inl (InvalidTakeParameter ''.5'')"
    by (simp add: parseTakeSkip_take_fails parseTake_nan n)
  then have "GET_mails \<lparr>take_q = Some ''.5'', skip_q = None\<rparr> w =
     (Inl (BadRequestException (Single ''Invalid take, skip'')),
      w\<lparr>logger := logger w @ [ErrorParsingTakeSkip (InvalidTakeParameter ''.5'')]\<rparr>)"
    by (simp add: GET_mails_valid [OF ok] getMailPaginated_fails)
  with v n pipe show ?thesis
    by simp
qed

theorem validated_string_may_not_parse_witness:
  "fst (GET_mails \<lparr>take_q = Some ''.5'', skip_q = None\<rparr> mockWorld) =
     Inl (BadRequestException (Single ''Invalid take, skip'')) \<and>
   mails_src (snd (GET_mails \<lparr>take_q = Some ''.5'', skip_q = None\<rparr> mockWorld)) = mockMails"
  using validated_string_may_not_parse [of mockWorld]
  by (simp add: mockWorld_def)

subsection \<open>Decimal numeric strings\<close>




























section \<open>The first revision\<close>

text \<open>What the unit tests of \<^verbatim>\<open>mails.service.spec.ts\<close> expect of the revision without checks:
  a zero or non-numeric \<^verbatim>\<open>take\<close>, a negative \<^verbatim>\<open>skip\<close> and absent parameters all give an empty
  page and no error.\<close>

lemma unchecked_zero_take:
  "fst (getMailPaginated_unchecked \<lparr>take_q = Some ''0'', skip_q = Some ''0''\<rparr> mockWorld) =
     Inr \<lparr>mails = [], totalCount = Num 3\<rparr>"
  by (simp add: getMailPaginated_unchecked_def toString_def slice_def plainToInstance_def
      parse_eval mockWorld_def mockMails_def)

lemma unchecked_invalid_take:
  "fst (getMailPaginated_unchecked \<lparr>take_q = Some ''invalid'', skip_q = Some ''0''\<rparr> mockWorld) =
     Inr \<lparr>mails = [], totalCount = Num 3\<rparr>"
  by (simp add: getMailPaginated_unchecked_def toString_def slice_def plainToInstance_def
      parse_eval mockWorld_def mockMails_def)

lemma unchecked_negative_skip:
  "fst (getMailPaginated_unchecked \<lparr>take_q = Some ''2'', skip_q = Some ''-1''\<rparr> mockWorld) =
     Inr \<lparr>mails = [], totalCount = Num 3\<rparr>"
  by (simp add: getMailPaginated_unchecked_def toString_def slice_def plainToInstance_def
      parse_eval mockWorld_def mockMails_def)

lemma unchecked_absent_parameters:
  "fst (getMailPaginated_unchecked \<lparr>take_q = None, skip_q = None\<rparr> mockWorld) =
     Inr \<lparr>mails = [], totalCount = Num 3\<rparr>"
  by (simp add: getMailPaginated_unchecked_def toString_def slice_def plainToInstance_def
      parse_eval mockWorld_def mockMails_def)

end
